theory Spec2Isabelle
  imports Main "HOL-Library.AList" "HOL-Library.Word"
begin

section \<open>JavaScript values and render trees\<close>

text \<open>
  The values that travel through the bridge of \<^verbatim>\<open>src/index.ts\<close>: property values
  assigned by host code, attribute strings, and the trees handed to the rendering engine.
  A number is its IEEE-754 binary64 bit pattern; objects, functions, symbols and big
  integers are opaque references, told apart only by what \<^verbatim>\<open>typeof\<close> says of them.
  An array is a list of slots, \<open>None\<close> being a hole (an index never assigned).
\<close>

record ComponentDefinition =
  observedAttributes :: "string list option"
  propTypes :: "(string \<times> unit) list option"
  tagName :: "string option"
  displayName :: "string option"
  fn_name :: string

datatype vtype =
    Tag string
  | UserComponent ComponentDefinition
  | Slot
  | ContextProvider

datatype jsval =
    JUndefined
  | JNull
  | JBool bool
  | JNum "64 word"
  | JStr string
  | JObject nat
  | JFunction nat
  | JSymbol nat
  | JBigInt int
  | JArray "jsval option list"
  | JVNode vnode
and vnode =
    VNode (vtype: vtype) (vprops: "(string \<times> jsval) list") (vchildren: jsval)

type_synonym props = "(string \<times> jsval) list"

text \<open>Reading a property of an object: a missing key reads as \<^verbatim>\<open>undefined\<close>.\<close>

definition js_get :: "props \<Rightarrow> string \<Rightarrow> jsval" where
  "js_get p k = (case map_of p k of None \<Rightarrow> JUndefined | Some v \<Rightarrow> v)"

text \<open>
  \<^verbatim>\<open>p[k] = v\<close>: an existing key keeps its place, a new key goes to the end
  (\<open>AList.update\<close>).
\<close>

definition js_set :: "string \<Rightarrow> jsval \<Rightarrow> props \<Rightarrow> props" where
  "js_set k v p = AList.update k v p"

text \<open>\<^verbatim>\<open>v == null\<close> holds of \<^verbatim>\<open>null\<close> and \<^verbatim>\<open>undefined\<close> only.\<close>

fun loose_null :: "jsval \<Rightarrow> bool" where
  "loose_null JUndefined = True"
| "loose_null JNull = True"
| "loose_null _ = False"

fun typeof :: "jsval \<Rightarrow> string" where
  "typeof JUndefined = ''undefined''"
| "typeof JNull = ''object''"
| "typeof (JBool _) = ''boolean''"
| "typeof (JNum _) = ''number''"
| "typeof (JStr _) = ''string''"
| "typeof (JObject _) = ''object''"
| "typeof (JFunction _) = ''function''"
| "typeof (JSymbol _) = ''symbol''"
| "typeof (JBigInt _) = ''bigint''"
| "typeof (JArray _) = ''object''"
| "typeof (JVNode _) = ''object''"

text \<open>
  \<^verbatim>\<open>String(v)\<close>. The decimal rendering of a number is the host language's and is
  taken as the parameter \<open>numToString\<close>. On an object the coercion runs the object's
  own \<^verbatim>\<open>toString\<close>, which is outside this model: the result is \<open>None\<close> there, and the
  property setter never asks for it.
\<close>

fun String_js :: "(64 word \<Rightarrow> string) \<Rightarrow> jsval \<Rightarrow> string option" where
  "String_js numToString JUndefined = Some ''undefined''"
| "String_js numToString JNull = Some ''null''"
| "String_js numToString (JBool b) = Some (if b then ''true'' else ''false'')"
| "String_js numToString (JNum w) = Some (numToString w)"
| "String_js numToString (JStr s) = Some s"
| "String_js numToString _ = None"

text \<open>
  Modelled from the spec: the rendering engine is an external collaborator (section 6):
  ``an element-tree constructor taking a type reference, a prop mapping, and children''
  and ``a function returning a shallow-cloned tree with prop overrides merged in
  (existing props preserved except overridden keys, which replace wholesale)''.
  \<open>h\<close> records its three arguments (a \<^verbatim>\<open>null\<close> prop mapping is the empty one);
  \<open>cloneElement\<close> writes each override, in order, over the tree's prop mapping.
\<close>

definition h :: "vtype \<Rightarrow> props option \<Rightarrow> jsval \<Rightarrow> vnode" where
  "h ty p c = VNode ty (case p of None \<Rightarrow> [] | Some ps \<Rightarrow> ps) c"

definition cloneElement :: "vnode \<Rightarrow> props \<Rightarrow> vnode" where
  "cloneElement v overrides =
     VNode (vtype v) (fold (\<lambda>(k, x). js_set k x) overrides (vprops v)) (vchildren v)"

section \<open>toCamelCase\<close>

text \<open>
  \<^verbatim>\<open>str.replace(/-(\w)/g, (_, c) => (c ? c.toUpperCase() : ''))\<close>: scanning from the
  left, a hyphen followed by a word character (\<^verbatim>\<open>[A-Za-z0-9_]\<close>) is replaced by that
  character in upper case, and the scan goes on after the pair. The captured character
  is never empty, so the second branch of the callback is dead.
\<close>

definition is_word_char :: "char \<Rightarrow> bool" where
  "is_word_char c =
     (let n = (of_char c :: nat) in
        (97 \<le> n \<and> n \<le> 122) \<or> (65 \<le> n \<and> n \<le> 90) \<or> (48 \<le> n \<and> n \<le> 57) \<or> n = 95)"

definition toUpperCase_char :: "char \<Rightarrow> char" where
  "toUpperCase_char c =
     (let n = (of_char c :: nat) in if 97 \<le> n \<and> n \<le> 122 then char_of (n - 32) else c)"

fun toCamelCase :: "string \<Rightarrow> string" where
  "toCamelCase (c # d # cs) =
     (if c = CHR ''-'' \<and> is_word_char d then toUpperCase_char d # toCamelCase cs
      else c # toCamelCase (d # cs))"
| "toCamelCase cs = cs"

section \<open>The light-DOM projector\<close>

text \<open>
  A DOM node as \<open>toVdom\<close> reads it: its \<^verbatim>\<open>nodeType\<close>, \<^verbatim>\<open>nodeName\<close>, character
  \<^verbatim>\<open>data\<close>, attributes in document order and child nodes.
\<close>

datatype node =
  Node (nodeType: nat) (nodeName: string) (data: string)
       (attributes: "(string \<times> string) list") (childNodes: "node list")

definition isComment :: "node \<Rightarrow> bool" where
  "isComment n = (nodeType n = 3)"

definition isElement :: "node \<Rightarrow> bool" where
  "isElement n = (nodeType n = 1)"

text \<open>
  The \<^verbatim>\<open>slot\<close> property that the second loop reads belongs to the host's DOM, not
  to the repository. On an element it reflects the \<^verbatim>\<open>slot\<close> attribute (the empty
  string when there is none); any other node has no such property and reads
  \<^verbatim>\<open>undefined\<close> (\<open>None\<close>).
\<close>

definition slot :: "node \<Rightarrow> string option" where
  "slot n =
     (if isElement n
      then (case map_of (attributes n) ''slot'' of None \<Rightarrow> Some [] | Some s \<Rightarrow> Some s)
      else None)"

text \<open>Truthiness of what \<^verbatim>\<open>cn[i].slot\<close> reads: a non-empty string.\<close>

fun truthy_slot :: "string option \<Rightarrow> bool" where
  "truthy_slot None = False"
| "truthy_slot (Some s) = (s \<noteq> [])"

text \<open>
  Truthiness of the \<^verbatim>\<open>nodeName\<close> argument: \<^verbatim>\<open>null\<close> and the empty string are falsy,
  a component reference is truthy.
\<close>

fun truthy_nodeName :: "vtype option \<Rightarrow> bool" where
  "truthy_nodeName None = False"
| "truthy_nodeName (Some (Tag s)) = (s \<noteq> [])"
| "truthy_nodeName (Some _) = True"

definition toLowerCase_char :: "char \<Rightarrow> char" where
  "toLowerCase_char c =
     (let n = (of_char c :: nat) in if 65 \<le> n \<and> n \<le> 90 then char_of (n + 32) else c)"

definition toLowerCase :: "string \<Rightarrow> string" where
  "toLowerCase s = map toLowerCase_char s"

text \<open>
  \<^verbatim>\<open>children[i] = vnode\<close> on a JavaScript array: an index past the end extends the
  array, the indices in between staying holes. Reading a hole or past the end gives
  \<^verbatim>\<open>undefined\<close>.
\<close>

definition array_set :: "nat \<Rightarrow> 'a \<Rightarrow> 'a option list \<Rightarrow> 'a option list" where
  "array_set i v xs =
     (if i < length xs then xs[i := Some v]
      else xs @ replicate (i - length xs) None @ [Some v])"

definition array_get :: "'a option list \<Rightarrow> nat \<Rightarrow> 'a option" where
  "array_get xs i = (if i < length xs then xs ! i else None)"

text \<open>
  The first loop of \<open>toVdom\<close>, over the attributes in order:
  \<^verbatim>\<open>if (name !== 'slot') { props[name] = value; props[toCamelCase(name)] = value; }\<close>
\<close>

fun attr_loop :: "(string \<times> string) list \<Rightarrow> props \<Rightarrow> props" where
  "attr_loop [] props = props"
| "attr_loop ((name, val) # a) props =
     attr_loop a
       (if name \<noteq> ''slot''
        then js_set (toCamelCase name) (JStr val) (js_set name (JStr val) props)
        else props)"

text \<open>
  The second loop, \<^verbatim>\<open>for (let i = cn.length; i--;)\<close>, from the last child to the
  first. Entry \<open>i\<close> of \<open>kids\<close> holds what the body reads of child \<open>i\<close>: its
  \<^verbatim>\<open>slot\<close> and its projection \<^verbatim>\<open>toVdom(cn[i], null)\<close>. The projection has no effect,
  so \<open>toVdom\<close> below computes the entries before the loop runs.
\<close>

fun child_loop ::
  "(string option \<times> jsval) list \<Rightarrow> nat \<Rightarrow> props \<Rightarrow> jsval option list
     \<Rightarrow> props \<times> jsval option list" where
  "child_loop kids 0 props children = (props, children)"
| "child_loop kids (Suc i) props children =
     (let name = fst (kids ! i); vnode = snd (kids ! i) in
      if truthy_slot name
      then child_loop kids i
             (js_set (the name) (JVNode (h Slot (Some [(''name'', JStr (the name))]) vnode)) props)
             children
      else child_loop kids i props (array_set i vnode children))"

fun toVdom :: "node \<Rightarrow> vtype option \<Rightarrow> jsval" where
  "toVdom (Node nt nn d a cn) nodeName' =
     (if nt = 3 then JStr d
      else if nt \<noteq> 1 then JNull
      else
        let props = attr_loop a [];
            kids = map (\<lambda>c. (slot c, toVdom c None)) cn;
            (props', children) = child_loop kids (length cn) props [];
            wrappedChildren =
              (if truthy_nodeName nodeName' then JVNode (h Slot None (JArray children))
               else JArray children)
        in JVNode (h (if truthy_nodeName nodeName' then the nodeName' else Tag (toLowerCase nn))
                     (Some props') wrappedChildren))"

text \<open>The prop mapping of a projection that is a tree node (none for a string or \<^verbatim>\<open>null\<close>).\<close>

definition projected_props :: "jsval \<Rightarrow> props" where
  "projected_props j = (case j of JVNode t \<Rightarrow> vprops t | _ \<Rightarrow> [])"

text \<open>
  Two notions used to state what the attribute loop leaves behind: a lower-case ASCII
  letter, and an attribute \<open>(name, value)\<close> whose iteration writes the key \<open>k\<close>.
\<close>

definition is_lower :: "char \<Rightarrow> bool" where
  "is_lower c = (97 \<le> (of_char c :: nat) \<and> (of_char c :: nat) \<le> 122)"

definition writes_key :: "string \<Rightarrow> string \<times> string \<Rightarrow> bool" where
  "writes_key k nv = (fst nv \<noteq> ''slot'' \<and> (fst nv = k \<or> toCamelCase (fst nv) = k))"

section \<open>Registration\<close>

text \<open>
  \<^verbatim>\<open>Options = { shadow: false | 'open' | 'closed' }\<close>; the \<open>options\<close> argument of
  \<open>register\<close> is optional (\<open>None\<close> when omitted), as are \<open>tagName\<close> and
  \<open>propNames\<close>.
\<close>

datatype shadow = ShadowFalse | ShadowOpen | ShadowClosed

datatype root = Self | ShadowRoot shadow

text \<open>
  The class \<^verbatim>\<open>PreactElement\<close> that one call of \<open>register\<close> builds: its static field
  \<^verbatim>\<open>observedAttributes = propNames\<close> and the three variables of the call that its
  methods close over.
\<close>

record PreactElementClass =
  static_observedAttributes :: "string list option"
  cls_Component :: ComponentDefinition
  cls_propNames :: "string list option"
  cls_options :: "shadow option"

text \<open>
  \<^verbatim>\<open>tagName ?? Component.tagName ?? Component.displayName ?? Component.name\<close>, the name
  under which the class goes to \<^verbatim>\<open>customElements.define\<close>.
\<close>

definition resolve_tagName :: "ComponentDefinition \<Rightarrow> string option \<Rightarrow> string" where
  "resolve_tagName Component tagName' =
     (case tagName' of Some t \<Rightarrow> t | None \<Rightarrow>
        (case tagName Component of Some t \<Rightarrow> t | None \<Rightarrow>
           (case displayName Component of Some t \<Rightarrow> t | None \<Rightarrow> fn_name Component)))"

definition register ::
  "ComponentDefinition \<Rightarrow> string option \<Rightarrow> string list option \<Rightarrow> shadow option
     \<Rightarrow> string \<times> PreactElementClass" where
  "register Component tagName' propNames options =
     (resolve_tagName Component tagName',
      \<lparr> static_observedAttributes = propNames,
        cls_Component = Component,
        cls_propNames = propNames,
        cls_options = options \<rparr>)"

section \<open>The element instance\<close>

text \<open>
  What the rendering engine is asked to do, in the order of the calls:
  \<^verbatim>\<open>render(tree, root)\<close> (the tree \<^verbatim>\<open>null\<close> on disconnection) and
  \<^verbatim>\<open>hydrate(tree, root)\<close>.
\<close>

datatype engine_call = Render "vnode option" root | Hydrate vnode root

text \<open>
  One live element. \<open>el_vdomComponent\<close>, \<open>el_root\<close>, \<open>el_vdom\<close> and \<open>el_props\<close>
  are the fields \<^verbatim>\<open>_vdomComponent\<close>, \<^verbatim>\<open>_root\<close>, \<^verbatim>\<open>_vdom\<close> and \<^verbatim>\<open>_props\<close> of the
  class; \<open>el_accessors\<close> lists the names given an accessor pair by the constructor;
  \<open>el_observed\<close> lists the attribute names the host observes for the element, which
  it took from the static \<^verbatim>\<open>observedAttributes\<close> of the class when the class was
  defined; \<open>el_node\<close> is the element as a DOM node (its attributes and child nodes);
  \<open>el_calls\<close> is the trace of calls into the rendering engine.
\<close>

record PreactElement =
  el_vdomComponent :: ComponentDefinition
  el_root :: root
  el_vdom :: "vnode option"
  el_props :: "props option"
  el_accessors :: "string list"
  el_observed :: "string list"
  el_node :: node
  el_calls :: "engine_call list"

datatype error = TypeError

text \<open>
  \<^verbatim>\<open>propNames || PreactElement.observedAttributes\<close>: an array is truthy, so the right
  operand is read only when \<open>propNames\<close> was omitted.
\<close>

definition propsToDefine :: "PreactElementClass \<Rightarrow> string list option" where
  "propsToDefine cls =
     (case cls_propNames cls of Some p \<Rightarrow> Some p | None \<Rightarrow> static_observedAttributes cls)"

text \<open>
  The constructor, run on the node the host has created. Iterating \<^verbatim>\<open>undefined\<close>
  with \<^verbatim>\<open>for ... of\<close> throws a \<^verbatim>\<open>TypeError\<close>. An undefined static
  \<^verbatim>\<open>observedAttributes\<close> means that the host observes no attribute.
\<close>

definition constructor :: "PreactElementClass \<Rightarrow> node \<Rightarrow> error + PreactElement" where
  "constructor cls this =
     (let r = (case cls_options cls of
                 Some ShadowOpen \<Rightarrow> ShadowRoot ShadowOpen
               | Some ShadowClosed \<Rightarrow> ShadowRoot ShadowClosed
               | _ \<Rightarrow> Self)
      in case propsToDefine cls of
           None \<Rightarrow> Inl TypeError
         | Some names \<Rightarrow>
             Inr \<lparr> el_vdomComponent = cls_Component cls,
                   el_root = r,
                   el_vdom = None,
                   el_props = None,
                   el_accessors = names,
                   el_observed =
                     (case static_observedAttributes cls of None \<Rightarrow> [] | Some ns \<Rightarrow> ns),
                   el_node = this,
                   el_calls = [] \<rparr>)"

text \<open>
  Reading the attribute store, which belongs to the host's DOM and not to the
  repository (section 6 of the specification lists its get, set and has operations
  among the consumed interfaces). On an HTML element the host puts the queried name
  in ASCII lower case first.
\<close>

definition hasAttribute :: "PreactElement \<Rightarrow> string \<Rightarrow> bool" where
  "hasAttribute this name = (map_of (attributes (el_node this)) (toLowerCase name) \<noteq> None)"

definition getAttribute :: "PreactElement \<Rightarrow> string \<Rightarrow> string option" where
  "getAttribute this name = map_of (attributes (el_node this)) (toLowerCase name)"

section \<open>Lifecycle transitions\<close>

text \<open>
  Modelled from the spec: what a call of the rendering engine does to the DOM, the
  engine being an external collaborator (sections 4.5 and 6: ``a render function taking
  a tree and a DOM mount point''; disconnection ``renders an explicit empty tree into
  root''). After \<^verbatim>\<open>render(tree, root)\<close> or \<^verbatim>\<open>hydrate(tree, root)\<close> the child nodes
  of the mount point are the engine's output for the tree, which is taken as the
  parameter \<open>dom_of\<close> of the transitions; after \<^verbatim>\<open>render(null, root)\<close> the mount
  point has no child nodes. When the root is the element itself these are the
  element's own child nodes; a shadow root leaves the element's child nodes alone.
\<close>

definition set_mount :: "root \<Rightarrow> node list \<Rightarrow> node \<Rightarrow> node" where
  "set_mount r cs n =
     (case r of
        Self \<Rightarrow> (case n of Node nt nn d a cn \<Rightarrow> Node nt nn d a cs)
      | ShadowRoot m \<Rightarrow> n)"

text \<open>
  \<open>connectedCallback\<close>. The value \<open>context\<close> is what \<^verbatim>\<open>event.detail?.['context']\<close>
  reads after the synchronous dispatch of the \<^verbatim>\<open>_preact\<close> event: what an
  ancestor's listener wrote there, \<^verbatim>\<open>undefined\<close> when no ancestor answered.
  \<^verbatim>\<open>{ ...this._props, context }\<close> copies the pending props (none when \<^verbatim>\<open>_props\<close> is
  \<^verbatim>\<open>undefined\<close>) and then writes the key \<^verbatim>\<open>context\<close>. The element is projected
  before the engine is called.
\<close>

definition spread :: "props option \<Rightarrow> props" where
  "spread p = (case p of None \<Rightarrow> [] | Some ps \<Rightarrow> ps)"

definition connectedCallback ::
  "(vnode \<Rightarrow> node list) \<Rightarrow> jsval \<Rightarrow> PreactElement \<Rightarrow> PreactElement" where
  "connectedCallback dom_of context this =
     (let v = h ContextProvider
                (Some (js_set ''context'' context (spread (el_props this))))
                (toVdom (el_node this) (Some (UserComponent (el_vdomComponent this))))
      in this\<lparr> el_vdom := Some v,
               el_node := set_mount (el_root this) (dom_of v) (el_node this),
               el_calls := el_calls this @
                 [if hasAttribute this ''hydrate'' then Hydrate v (el_root this)
                  else Render (Some v) (el_root this)] \<rparr>)"

text \<open>
  The prop delta of \<open>attributeChangedCallback\<close>:
  \<^verbatim>\<open>props[name] = newValue; props[toCamelCase(name)] = newValue\<close> on an empty object,
  after \<^verbatim>\<open>newValue = newValue == null ? undefined : newValue\<close>.
\<close>

definition prop_delta :: "string \<Rightarrow> jsval \<Rightarrow> props" where
  "prop_delta name newValue =
     (let newValue' = (if loose_null newValue then JUndefined else newValue)
      in js_set (toCamelCase name) newValue' (js_set name newValue' []))"

definition attributeChangedCallback ::
  "(vnode \<Rightarrow> node list) \<Rightarrow> string \<Rightarrow> jsval \<Rightarrow> jsval \<Rightarrow> PreactElement
     \<Rightarrow> PreactElement" where
  "attributeChangedCallback dom_of name oldValue newValue this =
     (case el_vdom this of
        None \<Rightarrow> this
      | Some v \<Rightarrow>
          (let v' = cloneElement v (prop_delta name newValue)
           in this\<lparr> el_vdom := Some v',
                    el_node := set_mount (el_root this) (dom_of v') (el_node this),
                    el_calls := el_calls this @ [Render (Some v') (el_root this)] \<rparr>))"

definition disconnectedCallback :: "PreactElement \<Rightarrow> PreactElement" where
  "disconnectedCallback this =
     this\<lparr> el_vdom := None,
           el_node := set_mount (el_root this) [] (el_node this),
           el_calls := el_calls this @ [Render None (el_root this)] \<rparr>"

text \<open>
  Writing the attribute store, again the host's. \<^verbatim>\<open>setAttribute(name, value)\<close> on an
  HTML element puts the name in ASCII lower case and stores the string under it; when
  that name is one the host observes for the element, the host then calls
  \<^verbatim>\<open>attributeChangedCallback(name, oldValue, value)\<close> with the lower-case name and the
  previous string (\<^verbatim>\<open>null\<close> when there was none), and only then returns to the caller.
\<close>

definition setAttribute ::
  "(vnode \<Rightarrow> node list) \<Rightarrow> string \<Rightarrow> string \<Rightarrow> PreactElement \<Rightarrow> PreactElement" where
  "setAttribute dom_of name val this =
     (let localName = toLowerCase name;
          oldValue = (case map_of (attributes (el_node this)) localName of
                        None \<Rightarrow> JNull | Some s \<Rightarrow> JStr s);
          this' = this\<lparr> el_node :=
                    (case el_node this of
                       Node nt nn d a cn \<Rightarrow> Node nt nn d (AList.update localName val a) cn) \<rparr>
      in if localName \<in> set (el_observed this)
         then attributeChangedCallback dom_of localName oldValue (JStr val) this'
         else this')"

section \<open>The property accessors\<close>

text \<open>
  \<^verbatim>\<open>get() { return this._vdom ? this._vdom.props[name] : this._props?.[name]; }\<close>
\<close>

definition prop_get :: "string \<Rightarrow> PreactElement \<Rightarrow> jsval" where
  "prop_get name this =
     (case el_vdom this of
        Some v \<Rightarrow> js_get (vprops v) name
      | None \<Rightarrow> (case el_props this of None \<Rightarrow> JUndefined | Some p \<Rightarrow> js_get p name))"

text \<open>
  The setter: through \<open>attributeChangedCallback\<close> when a tree is stored, into
  \<^verbatim>\<open>_props\<close> (created when absent) otherwise; then the value is mirrored onto the
  attribute when
  \<^verbatim>\<open>v == null || ['string', 'boolean', 'number'].includes(typeof v)\<close>.
  The mirroring is a call of the host's \<open>setAttribute\<close>, so for an observed name
  the host's notification runs inside the setter, after the routed call.
\<close>

definition reflects :: "jsval \<Rightarrow> bool" where
  "reflects v = (loose_null v \<or> typeof v \<in> set [''string'', ''boolean'', ''number''])"

definition prop_set ::
  "(vnode \<Rightarrow> node list) \<Rightarrow> (64 word \<Rightarrow> string) \<Rightarrow> string \<Rightarrow> jsval \<Rightarrow> PreactElement
     \<Rightarrow> PreactElement" where
  "prop_set dom_of numToString name v this =
     (let this' =
        (if el_vdom this \<noteq> None then attributeChangedCallback dom_of name JNull v this
         else this\<lparr> el_props := Some (js_set name v (spread (el_props this))) \<rparr>)
      in if reflects v
         then (case String_js numToString v of
                 Some s \<Rightarrow> setAttribute dom_of name s this'
               | None \<Rightarrow> this')
         else this')"

text \<open>
  What can happen to an element once it exists, as a sequence of events delivered to
  it: the three lifecycle callbacks, a write to a declared property, and host code
  setting an attribute.
\<close>

datatype event =
    Connect jsval
  | AttributeChanged string jsval jsval
  | Disconnect
  | PropertyWrite string jsval
  | SetAttribute string string

fun step ::
  "(vnode \<Rightarrow> node list) \<Rightarrow> (64 word \<Rightarrow> string) \<Rightarrow> event \<Rightarrow> PreactElement
     \<Rightarrow> PreactElement" where
  "step dom_of numToString (Connect context) this = connectedCallback dom_of context this"
| "step dom_of numToString (AttributeChanged name oldValue newValue) this =
     attributeChangedCallback dom_of name oldValue newValue this"
| "step dom_of numToString Disconnect this = disconnectedCallback this"
| "step dom_of numToString (PropertyWrite name v) this =
     prop_set dom_of numToString name v this"
| "step dom_of numToString (SetAttribute name val) this = setAttribute dom_of name val this"

definition run ::
  "(vnode \<Rightarrow> node list) \<Rightarrow> (64 word \<Rightarrow> string) \<Rightarrow> event list \<Rightarrow> PreactElement
     \<Rightarrow> PreactElement" where
  "run dom_of numToString evs this = fold (step dom_of numToString) evs this"

text \<open>
  The state Rendered of the lifecycle: a tree is stored (\<^verbatim>\<open>this._vdom\<close> is truthy).
\<close>

definition rendered :: "PreactElement \<Rightarrow> bool" where
  "rendered this = (el_vdom this \<noteq> None)"

text \<open>
  A sequence of events in which every property write finds a tree stored; the flag is
  whether one is stored before the first event.
\<close>

fun writes_while_rendered :: "bool \<Rightarrow> event list \<Rightarrow> bool" where
  "writes_while_rendered r [] = True"
| "writes_while_rendered r (Connect context # evs) = writes_while_rendered True evs"
| "writes_while_rendered r (Disconnect # evs) = writes_while_rendered False evs"
| "writes_while_rendered r (AttributeChanged name oldValue newValue # evs) =
     writes_while_rendered r evs"
| "writes_while_rendered r (SetAttribute name val # evs) = writes_while_rendered r evs"
| "writes_while_rendered r (PropertyWrite name v # evs) = (r \<and> writes_while_rendered r evs)"

section \<open>Concrete elements\<close>

text \<open>
  The scenario of section 8 of the specification: a component with the declared
  property \<open>label\<close>, registered as \<^verbatim>\<open>x-greet\<close> and instantiated from the markup
  \<^verbatim>\<open><x-greet label="Hi"></x-greet>\<close>. \<open>x_greet\<close> is the instance as the constructor
  leaves it when \<open>register\<close> was given the property names and no options, so that
  the root is the element itself; \<open>x_greet_shadow\<close> is the same with an open shadow
  root.
\<close>

definition Greet :: ComponentDefinition where
  "Greet = \<lparr> observedAttributes = Some [''label''], propTypes = None,
             tagName = None, displayName = None, fn_name = ''Greet'' \<rparr>"

definition x_greet_node :: node where
  "x_greet_node = Node 1 ''X-GREET'' [] [(''label'', ''Hi'')] []"

definition x_greet :: PreactElement where
  "x_greet = \<lparr> el_vdomComponent = Greet, el_root = Self, el_vdom = None, el_props = None,
               el_accessors = [''label''], el_observed = [''label''],
               el_node = x_greet_node, el_calls = [] \<rparr>"

definition x_greet_shadow :: PreactElement where
  "x_greet_shadow = x_greet\<lparr> el_root := ShadowRoot ShadowOpen \<rparr>"

text \<open>
  An engine whose output for every tree is \<^verbatim>\<open><p>Hello</p>\<close>, the number 5 as a
  binary64 bit pattern, and a rendering of numbers that is right at that number.
\<close>

definition render_p :: "vnode \<Rightarrow> node list" where
  "render_p t = [Node 1 ''P'' [] [] [Node 3 ''#text'' ''Hello'' [] []]]"

definition number_five :: "64 word" where
  "number_five = 0x4014000000000000"

definition render_five :: "64 word \<Rightarrow> string" where
  "render_five w = ''5''"

text \<open>
  The element after its first connection with no ancestor context, and the tree that
  connection stores.
\<close>

definition x_greet_connected :: PreactElement where
  "x_greet_connected = connectedCallback render_p JUndefined x_greet"

definition x_greet_tree :: vnode where
  "x_greet_tree =
     h ContextProvider (Some [(''context'', JUndefined)])
       (toVdom x_greet_node (Some (UserComponent Greet)))"

text \<open>
  The element with \<^verbatim>\<open>label = "Hi"\<close> assigned before any connection, and the same
  element after a connection followed by the write of an object to \<open>label\<close>; both
  with a shadow root as well. \<open>x_shadow_fresh\<close> is a never-connected element with the
  same markup on which the object was assigned to \<open>label\<close>.
\<close>

definition x_greet_pending :: PreactElement where
  "x_greet_pending = prop_set render_p render_five ''label'' (JStr ''Hi'') x_greet"

definition x_greet_moved :: PreactElement where
  "x_greet_moved =
     run render_p render_five [Connect JUndefined, PropertyWrite ''label'' (JObject 7)]
       x_greet_pending"




text \<open>
  A light DOM with a hyphenated attribute, a \<^verbatim>\<open>slot\<close> attribute, a slotted child and
  a text child:
  \<^verbatim>\<open><x-card data-foo="1" slot="q" title="t"><b slot="body"></b>hi</x-card>\<close>,
  and an element made of it whose root is the element itself.
\<close>

definition x_card_node :: node where
  "x_card_node =
     Node 1 ''X-CARD'' [] [(''data-foo'', ''1''), (''slot'', ''q''), (''title'', ''t'')]
       [Node 1 ''B'' [] [(''slot'', ''body'')] [], Node 3 ''#text'' ''hi'' [] []]"


section \<open>Basic facts\<close>

lemma constructor_x_greet:
  "constructor (snd (register Greet (Some ''x-greet'') (Some [''label'']) None)) x_greet_node
     = Inr x_greet"
  by (simp add: constructor_def register_def propsToDefine_def x_greet_def)

lemma constructor_x_greet_shadow:
  "constructor (snd (register Greet (Some ''x-greet'') (Some [''label'']) (Some ShadowOpen)))
     x_greet_node = Inr x_greet_shadow"
  by (simp add: constructor_def register_def propsToDefine_def x_greet_def x_greet_shadow_def)

lemma el_vdom_x_greet_connected: "el_vdom x_greet_connected = Some x_greet_tree"
  by (simp add: x_greet_connected_def x_greet_tree_def connectedCallback_def x_greet_def
      spread_def js_set_def Let_def)

lemma attributes_set_mount: "attributes (set_mount r cs n) = attributes n"
  by (cases n; cases r) (simp_all add: set_mount_def)


lemma attributes_attributeChangedCallback:
  "attributes (el_node (attributeChangedCallback dom_of name oldValue newValue this))
     = attributes (el_node this)"
  by (simp add: attributeChangedCallback_def Let_def attributes_set_mount split: option.splits)

lemma el_props_attributeChangedCallback:
  "el_props (attributeChangedCallback dom_of name oldValue newValue this) = el_props this"
  by (simp add: attributeChangedCallback_def Let_def split: option.splits)

lemma el_observed_attributeChangedCallback:
  "el_observed (attributeChangedCallback dom_of name oldValue newValue this) = el_observed this"
  by (simp add: attributeChangedCallback_def Let_def split: option.splits)

lemma el_root_attributeChangedCallback:
  "el_root (attributeChangedCallback dom_of name oldValue newValue this) = el_root this"
  by (simp add: attributeChangedCallback_def Let_def split: option.splits)

lemma rendered_attributeChangedCallback:
  "rendered (attributeChangedCallback dom_of name oldValue newValue this) = rendered this"
  by (simp add: rendered_def attributeChangedCallback_def Let_def split: option.splits)

lemma attributeChangedCallback_stored:
  "el_vdom this = Some v \<Longrightarrow>
   attributeChangedCallback dom_of name oldValue newValue this =
     this\<lparr> el_vdom := Some (cloneElement v (prop_delta name newValue)),
           el_node := set_mount (el_root this)
                        (dom_of (cloneElement v (prop_delta name newValue))) (el_node this),
           el_calls := el_calls this @
             [Render (Some (cloneElement v (prop_delta name newValue))) (el_root this)] \<rparr>"
  by (simp add: attributeChangedCallback_def Let_def)

text \<open>The store of \<open>setAttribute\<close> without the notification.\<close>

lemma setAttribute_cases:
  "\<exists>this'. attributes (el_node this') =
             AList.update (toLowerCase name) s (attributes (el_node this)) \<and>
           el_props this' = el_props this \<and> el_vdom this' = el_vdom this \<and>
           el_observed this' = el_observed this \<and> el_root this' = el_root this \<and>
           el_calls this' = el_calls this \<and>
           setAttribute dom_of name s this =
             (if toLowerCase name \<in> set (el_observed this)
              then attributeChangedCallback dom_of (toLowerCase name)
                     (case map_of (attributes (el_node this)) (toLowerCase name) of
                        None \<Rightarrow> JNull | Some x \<Rightarrow> JStr x) (JStr s) this'
              else this')"
proof -
  obtain nt nn d a cn where n: "el_node this = Node nt nn d a cn"
    by (cases "el_node this")
  let ?this' = "this\<lparr> el_node := Node nt nn d (AList.update (toLowerCase name) s a) cn \<rparr>"
  show ?thesis
    by (rule exI [of _ ?this']) (simp add: setAttribute_def Let_def n)
qed

lemma getAttribute_setAttribute:
  "getAttribute (setAttribute dom_of name s this) a =
     (if toLowerCase a = toLowerCase name then Some s else getAttribute this a)"
proof -
  from setAttribute_cases [of name s this dom_of] obtain this' where
    a: "attributes (el_node this') = AList.update (toLowerCase name) s (attributes (el_node this))"
    and e: "setAttribute dom_of name s this = this' \<or>
            (\<exists>ov. setAttribute dom_of name s this =
               attributeChangedCallback dom_of (toLowerCase name) ov (JStr s) this')"
    by (auto split: if_splits)
  from e have "attributes (el_node (setAttribute dom_of name s this)) = attributes (el_node this')"
    by (auto simp: attributes_attributeChangedCallback)
  with a show ?thesis
    by (simp add: getAttribute_def update_conv')
qed

lemma el_props_setAttribute: "el_props (setAttribute dom_of name s this) = el_props this"
  using setAttribute_cases [of name s this dom_of]
  by (auto simp: el_props_attributeChangedCallback split: if_splits)

lemma rendered_setAttribute: "rendered (setAttribute dom_of name s this) = rendered this"
proof -
  from setAttribute_cases [of name s this dom_of] obtain this' where
    v: "el_vdom this' = el_vdom this"
    and e: "setAttribute dom_of name s this = this' \<or>
            (\<exists>ov. setAttribute dom_of name s this =
               attributeChangedCallback dom_of (toLowerCase name) ov (JStr s) this')"
    by (auto split: if_splits)
  from v have "rendered this' = rendered this"
    by (simp add: rendered_def)
  with e show ?thesis
    by (auto simp: rendered_attributeChangedCallback)
qed

lemma setAttribute_stored:
  assumes "el_vdom this = Some v"
  shows "el_vdom (setAttribute dom_of name s this) =
           Some (if toLowerCase name \<in> set (el_observed this)
                 then cloneElement v (prop_delta (toLowerCase name) (JStr s)) else v) \<and>
         el_calls (setAttribute dom_of name s this) =
           el_calls this @
             (if toLowerCase name \<in> set (el_observed this)
              then [Render (Some (cloneElement v (prop_delta (toLowerCase name) (JStr s))))
                      (el_root this)]
              else [])"
proof -
  from setAttribute_cases [of name s this dom_of] obtain this' where
    t: "el_vdom this' = el_vdom this" "el_root this' = el_root this" "el_calls this' = el_calls this"
    and e: "setAttribute dom_of name s this =
             (if toLowerCase name \<in> set (el_observed this)
              then attributeChangedCallback dom_of (toLowerCase name)
                     (case map_of (attributes (el_node this)) (toLowerCase name) of
                        None \<Rightarrow> JNull | Some x \<Rightarrow> JStr x) (JStr s) this'
              else this')"
    by blast
  from t assms have s: "el_vdom this' = Some v"
    by simp
  show ?thesis
    using t assms by (simp add: e attributeChangedCallback_stored [OF s])
qed

lemma reflects_String_js: "reflects v \<Longrightarrow> \<exists>s. String_js numToString v = Some s"
  by (cases v) (simp_all add: reflects_def)

text \<open>The guard of the setter, in the words of the specification.\<close>

lemma reflects_iff:
  "reflects v \<longleftrightarrow>
     v = JNull \<or> v = JUndefined \<or> (\<exists>s. v = JStr s) \<or> (\<exists>b. v = JBool b) \<or> (\<exists>w. v = JNum w)"
  by (cases v) (simp_all add: reflects_def)

lemma prop_delta_null:
  "prop_delta name JNull =
     (if toCamelCase name = name then [(name, JUndefined)]
      else [(name, JUndefined), (toCamelCase name, JUndefined)])"
  by (simp add: prop_delta_def js_set_def)

lemma map_of_prop_delta:
  "map_of (prop_delta name newValue) k =
     (if k = name \<or> k = toCamelCase name
      then Some (if loose_null newValue then JUndefined else newValue) else None)"
  by (simp add: prop_delta_def js_set_def update_conv' Let_def)

lemma map_of_cloneElement_delta:
  "map_of (vprops (cloneElement v (prop_delta name newValue))) k =
     (if k = name \<or> k = toCamelCase name
      then Some (if loose_null newValue then JUndefined else newValue)
      else map_of (vprops v) k)"
  by (simp add: cloneElement_def prop_delta_def Let_def js_set_def update_conv')

lemma prop_set_unreflected:
  "\<not> reflects v \<Longrightarrow>
   prop_set dom_of numToString name v this =
     (if el_vdom this \<noteq> None then attributeChangedCallback dom_of name JNull v this
      else this\<lparr> el_props := Some (js_set name v (spread (el_props this))) \<rparr>)"
  by (simp add: prop_set_def Let_def)

lemma attributes_prop_set_unreflected:
  "\<not> reflects v \<Longrightarrow>
   attributes (el_node (prop_set dom_of numToString name v this)) = attributes (el_node this)"
  by (simp add: prop_set_unreflected attributes_attributeChangedCallback)

lemma prop_set_reflected:
  assumes "reflects v"
  shows "\<exists>s this'. String_js numToString v = Some s \<and>
           attributes (el_node this') = attributes (el_node this) \<and>
           prop_set dom_of numToString name v this = setAttribute dom_of name s this'"
proof -
  obtain s where s: "String_js numToString v = Some s"
    using assms reflects_String_js by blast
  show ?thesis
  proof (cases "el_vdom this")
    case None
    with assms s show ?thesis
      by (intro exI[of _ s]
            exI[of _ "this\<lparr> el_props := Some (js_set name v (spread (el_props this))) \<rparr>"])
         (simp add: prop_set_def)
  next
    case (Some t)
    with assms s show ?thesis
      by (intro exI[of _ s] exI[of _ "attributeChangedCallback dom_of name JNull v this"])
         (simp add: prop_set_def attributes_attributeChangedCallback)
  qed
qed

lemma hasAttribute_getAttribute: "hasAttribute this a = (getAttribute this a \<noteq> None)"
  by (simp add: hasAttribute_def getAttribute_def)

lemma getAttribute_cong:
  "attributes (el_node a) = attributes (el_node b) \<Longrightarrow> getAttribute a k = getAttribute b k"
  by (simp add: getAttribute_def)

section \<open>Registration without property names\<close>

text \<open>
  C1. With \<open>propNames\<close> omitted, the property names are said to come from the
  definition's \<open>observedAttributes\<close>, else from the keys of its \<open>propTypes\<close>. The
  class does not read either: its static \<open>observedAttributes\<close> is the omitted
  argument itself, the constructor's fallback reads that same static field, and the
  loop over it throws. Here the definition declares \<open>label\<close> as observed and the call
  is \<^verbatim>\<open>register(Greet, 'x-greet')\<close>.
\<close>

theorem register_omitted_propNames_TypeError:
  "observedAttributes Greet = Some [''label''] \<and>
   static_observedAttributes (snd (register Greet (Some ''x-greet'') None None)) = None \<and>
   propsToDefine (snd (register Greet (Some ''x-greet'') None None)) = None \<and>
   constructor (snd (register Greet (Some ''x-greet'') None None)) x_greet_node = Inl TypeError"
  by (simp add: Greet_def register_def propsToDefine_def constructor_def)

text \<open>The same for every definition, tag name and shadow option.\<close>

lemma register_omitted_propNames_always_fails:
  "static_observedAttributes (snd (register Component tagName' None options)) = None \<and>
   constructor (snd (register Component tagName' None options)) this = Inl TypeError"
  by (simp add: register_def propsToDefine_def constructor_def)

section \<open>Projection of text and other nodes\<close>

text \<open>
  C2. A node that \<open>isComment\<close> accepts (node type 3, the node that carries literal
  text) projects to its character data, unchanged; a node that is neither that nor an
  element projects to \<^verbatim>\<open>null\<close>. Both hold whatever the \<open>nodeName\<close> argument is.
\<close>

theorem toVdom_text_and_other:
  "(isComment n \<longrightarrow> toVdom n nodeName' = JStr (data n)) \<and>
   (\<not> isComment n \<and> \<not> isElement n \<longrightarrow> toVdom n nodeName' = JNull)"
  by (cases n) (simp add: isComment_def isElement_def)

theorem toVdom_text_and_other_witness:
  "isComment (Node 3 ''#text'' ''Hello <b>'' [] []) \<and>
   toVdom (Node 3 ''#text'' ''Hello <b>'' [] []) None = JStr ''Hello <b>'' \<and>
   \<not> isComment (Node 8 ''#comment'' ''note'' [] []) \<and>
   \<not> isElement (Node 8 ''#comment'' ''note'' [] []) \<and>
   toVdom (Node 8 ''#comment'' ''note'' [] []) None = JNull"
  using toVdom_text_and_other [of "Node 3 ''#text'' ''Hello <b>'' [] []" None]
        toVdom_text_and_other [of "Node 8 ''#comment'' ''note'' [] []" None]
  by (simp add: isComment_def isElement_def)

section \<open>Attribute changes\<close>

text \<open>
  C3. When a tree is stored and an attribute-change notification carries the new value
  \<^verbatim>\<open>null\<close>, the prop delta has exactly the keys \<open>name\<close> and \<open>toCamelCase name\<close>,
  both bound to \<^verbatim>\<open>undefined\<close>; the stored tree becomes the clone of the old one with
  the delta merged in (same type, same children, every other prop kept); and that
  clone is rendered into the root, as the last engine call of the transition, the
  mount point receiving the engine's output for it. The instance below is the
  hyphenated name \<^verbatim>\<open>data-foo\<close>, whose delta has the two keys \<^verbatim>\<open>data-foo\<close> and
  \<^verbatim>\<open>dataFoo\<close>.
\<close>

theorem attributeChangedCallback_removed:
  assumes "el_vdom this = Some v"
  shows "map_of (prop_delta name JNull) name = Some JUndefined \<and>
    map_of (prop_delta name JNull) (toCamelCase name) = Some JUndefined \<and>
    fst ` set (prop_delta name JNull) = {name, toCamelCase name} \<and>
    attributeChangedCallback dom_of name oldValue JNull this =
      this\<lparr> el_vdom := Some (cloneElement v (prop_delta name JNull)),
            el_node := set_mount (el_root this)
                         (dom_of (cloneElement v (prop_delta name JNull))) (el_node this),
            el_calls := el_calls this @
              [Render (Some (cloneElement v (prop_delta name JNull))) (el_root this)] \<rparr> \<and>
    vtype (cloneElement v (prop_delta name JNull)) = vtype v \<and>
    vchildren (cloneElement v (prop_delta name JNull)) = vchildren v \<and>
    (\<forall>k. map_of (vprops (cloneElement v (prop_delta name JNull))) k =
       (if k = name \<or> k = toCamelCase name then Some JUndefined else map_of (vprops v) k))"
proof -
  note a = attributeChangedCallback_stored [OF assms, of dom_of name oldValue JNull]
  have b: "fst ` set (prop_delta name JNull) = {name, toCamelCase name}"
    by (auto simp: prop_delta_null)
  have c: "vtype (cloneElement v (prop_delta name JNull)) = vtype v"
    "vchildren (cloneElement v (prop_delta name JNull)) = vchildren v"
    by (simp_all add: cloneElement_def)
  show ?thesis
    using a b c by (simp add: map_of_prop_delta map_of_cloneElement_delta)
qed

theorem attributeChangedCallback_removed_witness:
  "el_vdom x_greet_connected = Some x_greet_tree \<and>
   toCamelCase ''data-foo'' = ''dataFoo'' \<and>
   prop_delta ''data-foo'' JNull = [(''data-foo'', JUndefined), (''dataFoo'', JUndefined)] \<and>
   el_vdom (attributeChangedCallback render_p ''data-foo'' (JStr ''1'') JNull x_greet_connected) =
     Some (cloneElement x_greet_tree (prop_delta ''data-foo'' JNull)) \<and>
   map_of (vprops (cloneElement x_greet_tree (prop_delta ''data-foo'' JNull))) ''data-foo'' =
     Some JUndefined \<and>
   map_of (vprops (cloneElement x_greet_tree (prop_delta ''data-foo'' JNull))) ''dataFoo'' =
     Some JUndefined \<and>
   map_of (vprops (cloneElement x_greet_tree (prop_delta ''data-foo'' JNull))) ''context'' =
     Some JUndefined \<and>
   map_of (vprops (cloneElement x_greet_tree (prop_delta ''data-foo'' JNull))) ''datafoo'' =
     None"
proof -
  have n: "toCamelCase ''data-foo'' = ''dataFoo''"
    by code_simp
  note t = attributeChangedCallback_removed
             [OF el_vdom_x_greet_connected, of "''data-foo''" render_p "JStr ''1''",
              unfolded n]
  have d: "prop_delta ''data-foo'' JNull = [(''data-foo'', JUndefined), (''dataFoo'', JUndefined)]"
    by (simp only: prop_delta_null n) simp
  have c: "map_of (vprops x_greet_tree) ''context'' = Some JUndefined"
    "map_of (vprops x_greet_tree) ''datafoo'' = None"
    by (simp_all add: x_greet_tree_def h_def)
  from t have v: "el_vdom (attributeChangedCallback render_p ''data-foo'' (JStr ''1'') JNull
                     x_greet_connected) =
     Some (cloneElement x_greet_tree (prop_delta ''data-foo'' JNull))"
    by simp
  from t have k: "\<forall>k. map_of (vprops (cloneElement x_greet_tree (prop_delta ''data-foo'' JNull))) k =
       (if k = ''data-foo'' \<or> k = ''dataFoo'' then Some JUndefined
        else map_of (vprops x_greet_tree) k)"
    by blast
  have m1: "map_of (vprops (cloneElement x_greet_tree (prop_delta ''data-foo'' JNull)))
              ''data-foo'' = Some JUndefined"
    by (simp add: k)
  have m2: "map_of (vprops (cloneElement x_greet_tree (prop_delta ''data-foo'' JNull)))
              ''dataFoo'' = Some JUndefined"
    by (simp add: k)
  have m3: "map_of (vprops (cloneElement x_greet_tree (prop_delta ''data-foo'' JNull)))
              ''context'' = Some JUndefined"
    by (simp add: k c)
  have m4: "map_of (vprops (cloneElement x_greet_tree (prop_delta ''data-foo'' JNull)))
              ''datafoo'' = None"
    by (simp add: k c)
  show ?thesis
    by (intro conjI) (rule el_vdom_x_greet_connected n d v m1 m2 m3 m4)+
qed

text \<open>
  C7. With no tree stored, the notification returns the instance as it was: no field
  changes and no engine call is added. The transition has no failing branch.
\<close>

theorem attributeChangedCallback_premature:
  "el_vdom this = None \<Longrightarrow> attributeChangedCallback dom_of name oldValue newValue this = this"
  by (simp add: attributeChangedCallback_def)

theorem attributeChangedCallback_premature_witness:
  "el_vdom x_greet = None \<and>
   attributeChangedCallback render_p ''label'' (JStr ''Hi'') JNull x_greet = x_greet \<and>
   el_calls (attributeChangedCallback render_p ''label'' (JStr ''Hi'') JNull x_greet) = []"
proof -
  have n: "el_vdom x_greet = None" by (simp add: x_greet_def)
  have c: "el_calls x_greet = []" by (simp add: x_greet_def)
  show ?thesis
    using n c
      attributeChangedCallback_premature [OF n, of render_p "''label''" "JStr ''Hi''" JNull]
    by simp
qed


section \<open>Property writes\<close>

text \<open>
  C4. A write of \<open>val\<close> to a declared property while a tree is stored first goes
  through \<open>attributeChangedCallback name null val\<close>: the stored tree becomes the clone
  with the delta for \<open>val\<close> and is rendered into the root at once. After that, when
  \<open>val\<close> is \<^verbatim>\<open>null\<close>, \<^verbatim>\<open>undefined\<close>, a string, a boolean or a number (\<open>reflects\<close>,
  see \<open>reflects_iff\<close>), the setter calls the host's \<open>setAttribute\<close> and the attribute
  \<open>name\<close> holds \<^verbatim>\<open>String(val)\<close>; when the host observes that attribute its
  notification follows inside the setter, so that the tree ends with the string under
  the lower-case name and a second render is made. For any other value the setter is
  the routed transition alone and the element's attributes are untouched.
\<close>

theorem prop_set_after_render:
  assumes "el_vdom this = Some v"
  shows
    "el_vdom (attributeChangedCallback dom_of name JNull val this) =
       Some (cloneElement v (prop_delta name val)) \<and>
     el_calls (attributeChangedCallback dom_of name JNull val this) =
       el_calls this @ [Render (Some (cloneElement v (prop_delta name val))) (el_root this)] \<and>
     (reflects val \<longrightarrow>
        (\<exists>s. String_js numToString val = Some s \<and>
             prop_set dom_of numToString name val this =
               setAttribute dom_of name s (attributeChangedCallback dom_of name JNull val this) \<and>
             getAttribute (prop_set dom_of numToString name val this) name = Some s \<and>
             (toLowerCase name \<in> set (el_observed this) \<longrightarrow>
                el_vdom (prop_set dom_of numToString name val this) =
                  Some (cloneElement (cloneElement v (prop_delta name val))
                          (prop_delta (toLowerCase name) (JStr s))) \<and>
                el_calls (prop_set dom_of numToString name val this) =
                  el_calls this @
                    [Render (Some (cloneElement v (prop_delta name val))) (el_root this),
                     Render (Some (cloneElement (cloneElement v (prop_delta name val))
                                     (prop_delta (toLowerCase name) (JStr s))))
                       (el_root this)]) \<and>
             (toLowerCase name \<notin> set (el_observed this) \<longrightarrow>
                el_vdom (prop_set dom_of numToString name val this) =
                  Some (cloneElement v (prop_delta name val)) \<and>
                el_calls (prop_set dom_of numToString name val this) =
                  el_calls this @
                    [Render (Some (cloneElement v (prop_delta name val))) (el_root this)]))) \<and>
     (\<not> reflects val \<longrightarrow>
        prop_set dom_of numToString name val this =
          attributeChangedCallback dom_of name JNull val this \<and>
        attributes (el_node (prop_set dom_of numToString name val this)) =
          attributes (el_node this))"
proof -
  let ?v1 = "cloneElement v (prop_delta name val)"
  let ?routed = "attributeChangedCallback dom_of name JNull val this"
  note r = attributeChangedCallback_stored [OF assms, of dom_of name JNull val]
  have rv: "el_vdom ?routed = Some ?v1"
    and rc: "el_calls ?routed = el_calls this @ [Render (Some ?v1) (el_root this)]"
    and ro: "el_observed ?routed = el_observed this"
    and rr: "el_root ?routed = el_root this"
    by (simp_all add: r)
  show ?thesis
  proof (cases "reflects val")
    case True
    then obtain s where s: "String_js numToString val = Some s"
      using reflects_String_js by blast
    have eq: "prop_set dom_of numToString name val this = setAttribute dom_of name s ?routed"
      using assms True s by (simp add: prop_set_def Let_def)
    have g: "getAttribute (prop_set dom_of numToString name val this) name = Some s"
      by (simp add: eq getAttribute_setAttribute)
    note st = setAttribute_stored [OF rv, of dom_of name s]
    have obs: "el_vdom (prop_set dom_of numToString name val this) =
                  Some (cloneElement ?v1 (prop_delta (toLowerCase name) (JStr s))) \<and>
               el_calls (prop_set dom_of numToString name val this) =
                  el_calls this @
                    [Render (Some ?v1) (el_root this),
                     Render (Some (cloneElement ?v1 (prop_delta (toLowerCase name) (JStr s))))
                       (el_root this)]"
      if "toLowerCase name \<in> set (el_observed this)"
      using that st by (simp add: eq ro rr rc)
    have unobs: "el_vdom (prop_set dom_of numToString name val this) = Some ?v1 \<and>
               el_calls (prop_set dom_of numToString name val this) =
                  el_calls this @ [Render (Some ?v1) (el_root this)]"
      if "toLowerCase name \<notin> set (el_observed this)"
      using that st by (simp add: eq ro rr rc)
    from True s eq g obs unobs rv rc show ?thesis
      by blast
  next
    case False
    have eq: "prop_set dom_of numToString name val this = ?routed"
      using assms False by (simp add: prop_set_unreflected)
    have at: "attributes (el_node (prop_set dom_of numToString name val this)) =
                attributes (el_node this)"
      using False by (rule attributes_prop_set_unreflected)
    from False eq at rv rc show ?thesis
      by blast
  qed
qed

theorem prop_set_after_render_witness:
  "el_vdom x_greet_connected = Some x_greet_tree \<and>
   reflects (JNum number_five) \<and>
   toLowerCase ''label'' \<in> set (el_observed x_greet_connected) \<and>
   String_js render_five (JNum number_five) = Some ''5'' \<and>
   el_calls (prop_set render_p render_five ''label'' (JNum number_five) x_greet_connected) =
     [Render (Some x_greet_tree) Self,
      Render (Some (cloneElement x_greet_tree (prop_delta ''label'' (JNum number_five)))) Self,
      Render (Some (cloneElement
                      (cloneElement x_greet_tree (prop_delta ''label'' (JNum number_five)))
                      (prop_delta ''label'' (JStr ''5'')))) Self] \<and>
   map_of (vprops (cloneElement x_greet_tree (prop_delta ''label'' (JNum number_five)))) ''label''
     = Some (JNum number_five) \<and>
   prop_get ''label'' (prop_set render_p render_five ''label'' (JNum number_five) x_greet_connected)
     = JStr ''5'' \<and>
   getAttribute (prop_set render_p render_five ''label'' (JNum number_five) x_greet_connected)
     ''label'' = Some ''5'' \<and>
   getAttribute (prop_set render_p render_five ''label'' (JBool True) x_greet_connected)
     ''label'' = Some ''true'' \<and>
   getAttribute (prop_set render_p render_five ''label'' (JStr ''Bye'') x_greet_connected)
     ''label'' = Some ''Bye'' \<and>
   prop_get ''label'' (prop_set render_p render_five ''label'' JNull x_greet_connected)
     = JStr ''null'' \<and>
   \<not> reflects (JObject 0) \<and>
   prop_get ''label'' (prop_set render_p render_five ''label'' (JObject 0) x_greet_connected)
     = JObject 0 \<and>
   attributes (el_node (prop_set render_p render_five ''label'' (JObject 0) x_greet_connected))
     = [(''label'', ''Hi'')] \<and>
   toLowerCase ''myProp'' \<notin> set (el_observed x_greet_connected) \<and>
   el_calls (prop_set render_p render_five ''myProp'' (JNum number_five) x_greet_connected) =
     [Render (Some x_greet_tree) Self,
      Render (Some (cloneElement x_greet_tree (prop_delta ''myProp'' (JNum number_five)))) Self] \<and>
   prop_get ''myProp''
     (prop_set render_p render_five ''myProp'' (JNum number_five) x_greet_connected)
     = JNum number_five \<and>
   attributes (el_node
     (prop_set render_p render_five ''myProp'' (JNum number_five) x_greet_connected))
     = [(''label'', ''Hi''), (''myprop'', ''5'')]"
proof -
  note a = prop_set_after_render
             [OF el_vdom_x_greet_connected, of render_p "''label''" "JNum number_five" render_five]
  note b = prop_set_after_render
             [OF el_vdom_x_greet_connected, of render_p "''label''" "JObject 0" render_five]
  have r: "reflects (JNum number_five)" "\<not> reflects (JObject 0)"
    by (simp_all add: reflects_def)
  have o: "toLowerCase ''label'' \<in> set (el_observed x_greet_connected)"
    by code_simp
  have l: "toLowerCase ''label'' = ''label''"
    by code_simp
  have s5: "String_js render_five (JNum number_five) = Some ''5''"
    by (simp add: render_five_def)
  have c0: "el_calls x_greet_connected = [Render (Some x_greet_tree) Self]"
    by code_simp
  have rt: "el_root x_greet_connected = Self"
    by code_simp
  from a r(1) o s5 have calls:
    "el_calls (prop_set render_p render_five ''label'' (JNum number_five) x_greet_connected) =
       el_calls x_greet_connected @
         [Render (Some (cloneElement x_greet_tree (prop_delta ''label'' (JNum number_five))))
            (el_root x_greet_connected),
          Render (Some (cloneElement
                      (cloneElement x_greet_tree (prop_delta ''label'' (JNum number_five)))
                      (prop_delta (toLowerCase ''label'') (JStr ''5''))))
            (el_root x_greet_connected)]"
    by auto
  have calls': "el_calls (prop_set render_p render_five ''label'' (JNum number_five) x_greet_connected) =
     [Render (Some x_greet_tree) Self,
      Render (Some (cloneElement x_greet_tree (prop_delta ''label'' (JNum number_five)))) Self,
      Render (Some (cloneElement
                      (cloneElement x_greet_tree (prop_delta ''label'' (JNum number_five)))
                      (prop_delta ''label'' (JStr ''5'')))) Self]"
    unfolding calls by (simp only: c0 rt l append.simps)
  have m: "map_of (vprops (cloneElement x_greet_tree (prop_delta ''label'' (JNum number_five))))
             ''label'' = Some (JNum number_five)"
    by (simp add: map_of_cloneElement_delta)
  from a r(1) s5 have g5:
    "getAttribute (prop_set render_p render_five ''label'' (JNum number_five) x_greet_connected)
       ''label'' = Some ''5''"
    by auto
  have p5: "prop_get ''label''
      (prop_set render_p render_five ''label'' (JNum number_five) x_greet_connected) = JStr ''5''"
    by code_simp
  have gt: "getAttribute (prop_set render_p render_five ''label'' (JBool True) x_greet_connected)
     ''label'' = Some ''true''"
    by code_simp
  have gb: "getAttribute (prop_set render_p render_five ''label'' (JStr ''Bye'') x_greet_connected)
     ''label'' = Some ''Bye''"
    by code_simp
  have pn: "prop_get ''label'' (prop_set render_p render_five ''label'' JNull x_greet_connected)
     = JStr ''null''"
    by code_simp
  have po: "prop_get ''label''
      (prop_set render_p render_five ''label'' (JObject 0) x_greet_connected) = JObject 0"
    by code_simp
  have an: "attributes (el_node x_greet_connected) = [(''label'', ''Hi'')]"
    by code_simp
  from b r(2) have ao:
    "attributes (el_node (prop_set render_p render_five ''label'' (JObject 0) x_greet_connected))
       = attributes (el_node x_greet_connected)"
    by blast
  note c = prop_set_after_render
             [OF el_vdom_x_greet_connected, of render_p "''myProp''" "JNum number_five" render_five]
  have u: "toLowerCase ''myProp'' \<notin> set (el_observed x_greet_connected)"
    by code_simp
  from c r(1) u s5 have mcalls:
    "el_calls (prop_set render_p render_five ''myProp'' (JNum number_five) x_greet_connected) =
       el_calls x_greet_connected @
         [Render (Some (cloneElement x_greet_tree (prop_delta ''myProp'' (JNum number_five))))
            (el_root x_greet_connected)]"
    by auto
  have mcalls':
    "el_calls (prop_set render_p render_five ''myProp'' (JNum number_five) x_greet_connected) =
     [Render (Some x_greet_tree) Self,
      Render (Some (cloneElement x_greet_tree (prop_delta ''myProp'' (JNum number_five)))) Self]"
    unfolding mcalls by (simp only: c0 rt append.simps)
  have mp: "prop_get ''myProp''
     (prop_set render_p render_five ''myProp'' (JNum number_five) x_greet_connected)
     = JNum number_five"
    by code_simp
  have ma: "attributes (el_node
     (prop_set render_p render_five ''myProp'' (JNum number_five) x_greet_connected))
     = [(''label'', ''Hi''), (''myprop'', ''5'')]"
    by code_simp
  show ?thesis
    by (intro conjI)
       (rule el_vdom_x_greet_connected r o s5 calls' m p5 g5 gt gb pn po ao [unfolded an]
             u mcalls' mp ma)+
qed

text \<open>
  C9. Writing \<^verbatim>\<open>null\<close> to a declared property leaves the attribute holding the
  string \<^verbatim>\<open>null\<close>, and writing \<^verbatim>\<open>undefined\<close> the string \<^verbatim>\<open>undefined\<close>, whether or not
  a tree is stored; and an attribute the element has before a property write it still
  has after it, whatever the property and the value.
\<close>

theorem prop_set_null_undefined_never_removes:
  "getAttribute (prop_set dom_of numToString name JNull this) name = Some ''null'' \<and>
   getAttribute (prop_set dom_of numToString name JUndefined this) name = Some ''undefined'' \<and>
   (hasAttribute this a \<longrightarrow> hasAttribute (prop_set dom_of numToString name v this) a)"
proof -
  have n: "getAttribute (prop_set dom_of numToString name JNull this) name = Some ''null''"
    using prop_set_reflected [of JNull numToString this dom_of name]
    by (auto simp: reflects_def getAttribute_setAttribute)
  have u: "getAttribute (prop_set dom_of numToString name JUndefined this) name = Some ''undefined''"
    using prop_set_reflected [of JUndefined numToString this dom_of name]
    by (auto simp: reflects_def getAttribute_setAttribute)
  have k: "hasAttribute (prop_set dom_of numToString name v this) a" if h: "hasAttribute this a"
  proof (cases "reflects v")
    case True
    then obtain s this' where
      "attributes (el_node this') = attributes (el_node this)"
      "prop_set dom_of numToString name v this = setAttribute dom_of name s this'"
      using prop_set_reflected by blast
    then have "getAttribute (prop_set dom_of numToString name v this) a =
        (if toLowerCase a = toLowerCase name then Some s else getAttribute this a)"
      using getAttribute_cong [of this' this a] by (simp add: getAttribute_setAttribute)
    with h show ?thesis
      by (simp add: hasAttribute_getAttribute)
  next
    case False
    with h show ?thesis
      by (simp add: hasAttribute_def attributes_prop_set_unreflected)
  qed
  from n u k show ?thesis by blast
qed

theorem prop_set_null_undefined_never_removes_witness:
  "hasAttribute x_greet ''label'' \<and>
   hasAttribute (prop_set render_p render_five ''label'' JNull x_greet) ''label'' \<and>
   getAttribute (prop_set render_p render_five ''label'' JNull x_greet) ''label'' = Some ''null'' \<and>
   getAttribute (prop_set render_p render_five ''label'' JUndefined x_greet_connected) ''label''
     = Some ''undefined''"
proof -
  have p: "hasAttribute x_greet ''label''"
    by code_simp
  show ?thesis
    using p
      prop_set_null_undefined_never_removes
        [of render_p render_five "''label''" x_greet "''label''" JNull]
      prop_set_null_undefined_never_removes
        [of render_p render_five "''label''" x_greet_connected]
    by simp
qed


section \<open>Pending props through the lifecycle\<close>


lemma el_props_connectedCallback:
  "el_props (connectedCallback dom_of context this) = el_props this"
  by (simp add: connectedCallback_def Let_def)

lemma el_props_disconnectedCallback: "el_props (disconnectedCallback this) = el_props this"
  by (simp add: disconnectedCallback_def)

lemma el_props_prop_set_rendered:
  "el_vdom this \<noteq> None \<Longrightarrow>
   el_props (prop_set dom_of numToString name v this) = el_props this"
  by (simp add: prop_set_def Let_def el_props_attributeChangedCallback el_props_setAttribute
      split: option.splits)

lemma el_props_prop_set_unrendered:
  "el_vdom this = None \<Longrightarrow>
   el_props (prop_set dom_of numToString name v this) =
     Some (js_set name v (spread (el_props this)))"
  by (simp add: prop_set_def Let_def el_props_setAttribute split: option.splits)

lemma rendered_prop_set:
  "rendered (prop_set dom_of numToString name v this) = rendered this"
proof -
  let ?this' = "if el_vdom this \<noteq> None then attributeChangedCallback dom_of name JNull v this
                else this\<lparr> el_props := Some (js_set name v (spread (el_props this))) \<rparr>"
  have a: "rendered ?this' = rendered this"
    by (simp add: rendered_attributeChangedCallback) (simp add: rendered_def)
  have "prop_set dom_of numToString name v this = ?this' \<or>
    (\<exists>s. prop_set dom_of numToString name v this = setAttribute dom_of name s ?this')"
    by (auto simp: prop_set_def Let_def split: option.splits)
  with a show ?thesis
    by (auto simp: rendered_setAttribute)
qed

lemma rendered_connectedCallback: "rendered (connectedCallback dom_of context this)"
  by (simp add: rendered_def connectedCallback_def Let_def)

lemma rendered_disconnectedCallback: "\<not> rendered (disconnectedCallback this)"
  by (simp add: rendered_def disconnectedCallback_def)

lemma el_props_run:
  "writes_while_rendered (rendered this) evs
     \<Longrightarrow> el_props (run dom_of numToString evs this) = el_props this"
proof (induction evs arbitrary: this)
  case Nil
  show ?case by (simp add: run_def)
next
  case (Cons ev evs)
  show ?case
  proof (cases ev)
    case (Connect c)
    with Cons.prems have
      "writes_while_rendered (rendered (connectedCallback dom_of c this)) evs"
      by (simp add: rendered_connectedCallback)
    from Cons.IH [OF this] Connect show ?thesis
      by (simp add: run_def el_props_connectedCallback)
  next
    case (AttributeChanged name oldValue newValue)
    with Cons.prems have
      "writes_while_rendered
         (rendered (attributeChangedCallback dom_of name oldValue newValue this)) evs"
      by (simp add: rendered_attributeChangedCallback)
    from Cons.IH [OF this] AttributeChanged show ?thesis
      by (simp add: run_def el_props_attributeChangedCallback)
  next
    case Disconnect
    with Cons.prems have "writes_while_rendered (rendered (disconnectedCallback this)) evs"
      by (simp add: rendered_disconnectedCallback)
    from Cons.IH [OF this] Disconnect show ?thesis
      by (simp add: run_def el_props_disconnectedCallback)
  next
    case (PropertyWrite name v)
    with Cons.prems have r: "rendered this" and w: "writes_while_rendered True evs"
      by auto
    from r w have
      "writes_while_rendered (rendered (prop_set dom_of numToString name v this)) evs"
      by (simp add: rendered_prop_set)
    from Cons.IH [OF this] PropertyWrite r show ?thesis
      by (simp add: run_def el_props_prop_set_rendered rendered_def)
  next
    case (SetAttribute name val)
    with Cons.prems have
      "writes_while_rendered (rendered (setAttribute dom_of name val this)) evs"
      by (simp add: rendered_setAttribute)
    from Cons.IH [OF this] SetAttribute show ?thesis
      by (simp add: run_def el_props_setAttribute)
  qed
qed

lemma prop_get_disconnectedCallback:
  "prop_get name (disconnectedCallback this) = js_get (spread (el_props this)) name"
  by (simp add: prop_get_def disconnectedCallback_def spread_def js_get_def split: option.splits)

text \<open>
  C10, as the code has it. None of \<open>connectedCallback\<close>, \<open>attributeChangedCallback\<close>
  and \<open>disconnectedCallback\<close> changes \<^verbatim>\<open>_props\<close>, nor does a property write that
  finds a tree stored; a property write that finds none stores the value there. After
  a disconnection the getter reads from \<^verbatim>\<open>_props\<close> (\<^verbatim>\<open>undefined\<close> when it was never
  created). So over any sequence of events whose property writes all find a tree
  stored, \<^verbatim>\<open>_props\<close> stays what it was, and a read after a disconnection gives the
  value it held before, not the one in the last rendered tree.
\<close>

theorem pendingProps_untouched_while_rendered:
  "el_props (connectedCallback dom_of context this) = el_props this \<and>
   el_props (attributeChangedCallback dom_of name oldValue newValue this) = el_props this \<and>
   el_props (disconnectedCallback this) = el_props this \<and>
   (rendered this \<longrightarrow> el_props (prop_set dom_of numToString name v this) = el_props this) \<and>
   (\<not> rendered this \<longrightarrow>
      el_props (prop_set dom_of numToString name v this) =
        Some (js_set name v (spread (el_props this)))) \<and>
   prop_get name (disconnectedCallback this) = js_get (spread (el_props this)) name \<and>
   (writes_while_rendered (rendered this) evs \<longrightarrow>
      el_props (run dom_of numToString evs this) = el_props this \<and>
      prop_get name (disconnectedCallback (run dom_of numToString evs this)) =
        js_get (spread (el_props this)) name)"
  by (simp add: el_props_connectedCallback el_props_attributeChangedCallback
      el_props_disconnectedCallback el_props_prop_set_rendered el_props_prop_set_unrendered
      el_props_run prop_get_disconnectedCallback rendered_def)

theorem pendingProps_untouched_while_rendered_witness:
  "el_props x_greet_pending = Some [(''label'', JStr ''Hi'')] \<and>
   writes_while_rendered (rendered x_greet_pending)
     [Connect JUndefined, PropertyWrite ''label'' (JObject 7)] \<and>
   prop_get ''label''
     (run render_p render_five [Connect JUndefined, PropertyWrite ''label'' (JObject 7)]
        x_greet_pending)
     = JObject 7 \<and>
   prop_get ''label''
     (disconnectedCallback
        (run render_p render_five [Connect JUndefined, PropertyWrite ''label'' (JObject 7)]
           x_greet_pending))
     = JStr ''Hi'' \<and>
   \<not> rendered x_greet \<and>
   el_props (prop_set render_p render_five ''label'' (JStr ''Hi'') x_greet) =
     Some [(''label'', JStr ''Hi'')]"
proof -
  have p: "el_props x_greet_pending = Some [(''label'', JStr ''Hi'')]"
    by code_simp
  have w: "writes_while_rendered (rendered x_greet_pending)
     [Connect JUndefined, PropertyWrite ''label'' (JObject 7)]"
    by simp
  have g: "prop_get ''label''
     (run render_p render_five [Connect JUndefined, PropertyWrite ''label'' (JObject 7)]
        x_greet_pending)
     = JObject 7"
    by code_simp
  have u: "\<not> rendered x_greet"
    by code_simp
  have e: "el_props x_greet = None"
    by code_simp
  note t = pendingProps_untouched_while_rendered
        [of render_p JUndefined x_greet_pending "''label''" JUndefined JUndefined render_five
            JUndefined "[Connect JUndefined, PropertyWrite ''label'' (JObject 7)]"]
  note t' = pendingProps_untouched_while_rendered
        [of render_p JUndefined x_greet "''label''" JUndefined JUndefined render_five
            "JStr ''Hi''" "[]"]
  from t w p have d: "prop_get ''label''
     (disconnectedCallback
        (run render_p render_five [Connect JUndefined, PropertyWrite ''label'' (JObject 7)]
           x_greet_pending))
     = JStr ''Hi''"
    by (simp add: spread_def js_get_def)
  from t' u e have s: "el_props (prop_set render_p render_five ''label'' (JStr ''Hi'') x_greet) =
     Some [(''label'', JStr ''Hi'')]"
    by (simp add: spread_def js_set_def)
  show ?thesis
    by (intro conjI) (rule p w g d u s)+
qed

text \<open>
  C10 as stated fails for a property write made after a disconnection: no tree is
  stored then, so the write goes to \<^verbatim>\<open>_props\<close>, and a later read after a further
  connection and disconnection gives the value written, not the one assigned before
  the first connection.
\<close>

theorem pendingProps_written_after_disconnect:
  "el_props x_greet_pending = Some [(''label'', JStr ''Hi'')] \<and>
   el_props (run render_p render_five
               [Connect JUndefined, Disconnect, PropertyWrite ''label'' (JStr ''X'')]
               x_greet_pending)
     = Some [(''label'', JStr ''X'')] \<and>
   prop_get ''label''
     (run render_p render_five
        [Connect JUndefined, Disconnect, PropertyWrite ''label'' (JStr ''X''),
         Connect JUndefined, Disconnect]
        x_greet_pending)
     = JStr ''X''"
  by code_simp

section \<open>Disconnecting and reconnecting\<close>







section \<open>What toCamelCase cannot produce\<close>

lemma toUpperCase_char_not_lower: "\<not> is_lower (toUpperCase_char d)"
proof (cases "is_lower d")
  case True
  define n where "n = (of_char d :: nat)"
  from True have b: "97 \<le> n" "n \<le> 122"
    by (simp_all add: is_lower_def n_def)
  then have "n - 32 < 256" "\<not> 97 \<le> n - 32"
    by arith+
  then have "\<not> 97 \<le> (n - 32) mod 256"
    by simp
  with b show ?thesis
    by (simp add: toUpperCase_char_def is_lower_def Let_def n_def)
next
  case False
  then show ?thesis
    by (auto simp: toUpperCase_char_def is_lower_def Let_def)
qed

lemma toCamelCase_lower_id:
  "\<forall>c \<in> set (toCamelCase s). is_lower c \<Longrightarrow> toCamelCase s = s"
proof (induction s rule: toCamelCase.induct)
  case (1 c d cs)
  show ?case
  proof (cases "c = CHR ''-'' \<and> is_word_char d")
    case True
    with "1.prems" have "is_lower (toUpperCase_char d)" by simp
    with toUpperCase_char_not_lower show ?thesis by blast
  next
    case False
    with "1.prems" have "\<forall>x \<in> set (toCamelCase (d # cs)). is_lower x" by auto
    with "1.IH"(2) False have "toCamelCase (d # cs) = d # cs" by blast
    with False show ?thesis by auto
  qed
qed simp_all

lemma toCamelCase_slot: "toCamelCase n = ''slot'' \<Longrightarrow> n = ''slot''"
proof -
  assume a: "toCamelCase n = ''slot''"
  have "\<forall>c \<in> set ''slot''. is_lower c"
    by (simp add: is_lower_def)
  with a have "toCamelCase n = n"
    using toCamelCase_lower_id [of n] by simp
  with a show ?thesis by simp
qed

section \<open>The two loops of the projector\<close>

lemma attr_loop_append: "attr_loop (xs @ ys) p = attr_loop ys (attr_loop xs p)"
  by (induction xs arbitrary: p) auto

lemma attr_loop_untouched:
  "\<forall>nv \<in> set a. \<not> writes_key k nv \<Longrightarrow> map_of (attr_loop a p) k = map_of p k"
proof (induction a arbitrary: p)
  case Nil
  show ?case by simp
next
  case (Cons nv a)
  obtain n v where nv: "nv = (n, v)" by (cases nv)
  from Cons.prems have rest: "\<forall>x \<in> set a. \<not> writes_key k x" by simp
  from Cons.prems nv have here: "n = ''slot'' \<or> (n \<noteq> k \<and> toCamelCase n \<noteq> k)"
    by (auto simp: writes_key_def)
  show ?case
    using Cons.IH [OF rest] here nv by (auto simp: js_set_def update_conv')
qed

lemma attr_loop_last_writer:
  assumes "a = pre @ (n, v) # post" and "writes_key k (n, v)"
      and "\<forall>nv \<in> set post. \<not> writes_key k nv"
  shows "map_of (attr_loop a p) k = Some (JStr v)"
proof -
  from assms(2) have n: "n \<noteq> ''slot''" and k: "k = n \<or> k = toCamelCase n"
    by (auto simp: writes_key_def)
  have "attr_loop a p =
      attr_loop post (js_set (toCamelCase n) (JStr v) (js_set n (JStr v) (attr_loop pre p)))"
    using n by (simp add: assms(1) attr_loop_append)
  then show ?thesis
    using k by (auto simp: attr_loop_untouched [OF assms(3)] js_set_def update_conv')
qed

lemma attr_loop_slot: "map_of (attr_loop a []) ''slot'' = None"
proof -
  have "\<forall>nv \<in> set a. \<not> writes_key ''slot'' nv"
    using toCamelCase_slot by (auto simp: writes_key_def)
  from attr_loop_untouched [OF this] show ?thesis by simp
qed

lemma array_get_array_set:
  "array_get (array_set i v xs) j = (if j = i then Some v else array_get xs j)"
  by (auto simp: array_get_def array_set_def nth_append nth_Cons')

lemma array_get_Nil: "array_get [] j = None"
  by (simp add: array_get_def)

lemma length_array_set: "length (array_set i v xs) = max (Suc i) (length xs)"
  by (auto simp: array_set_def)

lemma child_loop_children:
  "array_get (snd (child_loop kids i props children)) j =
     (if j < i \<and> \<not> truthy_slot (fst (kids ! j)) then Some (snd (kids ! j))
      else array_get children j)"
proof (induction i arbitrary: props children)
  case 0
  show ?case by simp
next
  case (Suc i)
  show ?case
    by (auto simp: Let_def Suc.IH array_get_array_set less_Suc_eq)
qed

lemma child_loop_length:
  "length (snd (child_loop kids i props children)) \<le> max i (length children)"
proof (induction i arbitrary: props children)
  case 0
  show ?case by simp
next
  case (Suc i)
  show ?case
  proof (cases "truthy_slot (fst (kids ! i))")
    case True
    with Suc.IH [of "js_set (the (fst (kids ! i)))
        (JVNode (h Slot (Some [(''name'', JStr (the (fst (kids ! i))))]) (snd (kids ! i)))) props" children]
    show ?thesis by (simp add: Let_def)
  next
    case False
    with Suc.IH [of props "array_set i (snd (kids ! i)) children"]
    show ?thesis by (simp add: Let_def length_array_set)
  qed
qed

lemma child_loop_untouched:
  "\<forall>j<i. truthy_slot (fst (kids ! j)) \<longrightarrow> fst (kids ! j) \<noteq> Some k
     \<Longrightarrow> map_of (fst (child_loop kids i props children)) k = map_of props k"
proof (induction i arbitrary: props children)
  case 0
  show ?case by simp
next
  case (Suc i)
  from Suc.prems have rest: "\<forall>j<i. truthy_slot (fst (kids ! j)) \<longrightarrow> fst (kids ! j) \<noteq> Some k"
    by simp
  from Suc.prems have here: "truthy_slot (fst (kids ! i)) \<longrightarrow> fst (kids ! i) \<noteq> Some k"
    by simp
  show ?case
  proof (cases "truthy_slot (fst (kids ! i))")
    case True
    with here have "the (fst (kids ! i)) \<noteq> k"
      by (cases "fst (kids ! i)") auto
    with True show ?thesis
      by (simp add: Let_def Suc.IH [OF rest] js_set_def update_conv')
  next
    case False
    then show ?thesis
      by (simp add: Let_def Suc.IH [OF rest])
  qed
qed

lemma child_loop_first_wins:
  assumes "j < i" and "fst (kids ! j) = Some k" and "k \<noteq> []"
      and "\<forall>j'<j. fst (kids ! j') \<noteq> Some k"
  shows "map_of (fst (child_loop kids i props children)) k =
           Some (JVNode (h Slot (Some [(''name'', JStr k)]) (snd (kids ! j))))"
  using assms
proof (induction i arbitrary: props children)
  case 0
  then show ?case by simp
next
  case (Suc i)
  show ?case
  proof (cases "j = i")
    case True
    have u: "\<forall>j'<i. truthy_slot (fst (kids ! j')) \<longrightarrow> fst (kids ! j') \<noteq> Some k"
      using Suc.prems(4) True by simp
    show ?thesis
      using Suc.prems(2,3) True
      by (simp add: Let_def child_loop_untouched [OF u] js_set_def update_conv')
  next
    case False
    with Suc.prems(1) have "j < i" by simp
    from Suc.IH [OF this Suc.prems(2,3,4)] show ?thesis
      by (simp add: Let_def)
  qed
qed


lemma child_loop_key_cases:
  "map_of (fst (child_loop kids i props children)) k = map_of props k \<or>
   (\<exists>t. map_of (fst (child_loop kids i props children)) k = Some (JVNode t))"
proof (induction i arbitrary: props children)
  case 0
  show ?case by simp
next
  case (Suc i)
  show ?case
  proof (cases "truthy_slot (fst (kids ! i))")
    case True
    let ?p = "js_set (the (fst (kids ! i)))
        (JVNode (h Slot (Some [(''name'', JStr (the (fst (kids ! i))))]) (snd (kids ! i)))) props"
    have "map_of ?p k = map_of props k \<or> (\<exists>t. map_of ?p k = Some (JVNode t))"
      by (simp add: js_set_def update_conv')
    with Suc.IH [of ?p children] True show ?thesis
      by (auto simp: Let_def)
  next
    case False
    with Suc.IH [of props "array_set i (snd (kids ! i)) children"] show ?thesis
      by (simp add: Let_def)
  qed
qed

lemma toVdom_element:
  assumes "isElement el"
  shows "toVdom el nodeName' =
    JVNode (h (if truthy_nodeName nodeName' then the nodeName' else Tag (toLowerCase (nodeName el)))
      (Some (fst (child_loop (map (\<lambda>c. (slot c, toVdom c None)) (childNodes el))
                   (length (childNodes el)) (attr_loop (attributes el) []) [])))
      (if truthy_nodeName nodeName'
       then JVNode (h Slot None (JArray
              (snd (child_loop (map (\<lambda>c. (slot c, toVdom c None)) (childNodes el))
                   (length (childNodes el)) (attr_loop (attributes el) []) []))))
       else JArray
              (snd (child_loop (map (\<lambda>c. (slot c, toVdom c None)) (childNodes el))
                   (length (childNodes el)) (attr_loop (attributes el) []) []))))"
  using assms by (cases el) (simp add: isElement_def Let_def split: prod.splits)

lemma projected_props_element:
  assumes "isElement el"
  shows "projected_props (toVdom el nodeName') =
     fst (child_loop (map (\<lambda>c. (slot c, toVdom c None)) (childNodes el))
            (length (childNodes el)) (attr_loop (attributes el) []) [])"
  by (simp add: toVdom_element [OF assms] projected_props_def h_def)

section \<open>Attributes in the projected prop map\<close>

text \<open>
  C5, as the code has it. For an element, the attribute loop writes each attribute not
  named \<^verbatim>\<open>slot\<close> under its literal name and under \<open>toCamelCase\<close> of it, in attribute
  order, and the child loop then writes the slotted children under their slot names.
  So the returned prop map holds the attribute's value under such a key \<open>k\<close> when no
  later attribute writes \<open>k\<close> and no child carries the slot name \<open>k\<close>; and the key
  \<^verbatim>\<open>slot\<close> never holds an attribute value, whatever the attributes and children.
\<close>

theorem toVdom_attributes_copied:
  assumes "isElement el"
  shows "(\<forall>x. map_of (projected_props (toVdom el nodeName')) ''slot'' \<noteq> Some (JStr x)) \<and>
         (attributes el = pre @ (n, v) # post \<and> n \<noteq> ''slot'' \<and>
          (k = n \<or> k = toCamelCase n) \<and>
          (\<forall>(n', v') \<in> set post. n' = ''slot'' \<or> (n' \<noteq> k \<and> toCamelCase n' \<noteq> k)) \<and>
          (\<forall>c \<in> set (childNodes el). truthy_slot (slot c) \<longrightarrow> slot c \<noteq> Some k)
          \<longrightarrow> map_of (projected_props (toVdom el nodeName')) k = Some (JStr v))"
proof -
  let ?kids = "map (\<lambda>c. (slot c, toVdom c None)) (childNodes el)"
  let ?ps = "fst (child_loop ?kids (length (childNodes el)) (attr_loop (attributes el) []) [])"
  note pp = projected_props_element [OF assms, of nodeName']
  have s: "map_of ?ps ''slot'' \<noteq> Some (JStr x)" for x
    using child_loop_key_cases [of ?kids "length (childNodes el)" "attr_loop (attributes el) []"
        "[]" "''slot''"]
    by (auto simp: attr_loop_slot)
  have a: "map_of ?ps k = Some (JStr v)"
    if at: "attributes el = pre @ (n, v) # post" and n: "n \<noteq> ''slot''"
      and k: "k = n \<or> k = toCamelCase n"
      and later: "\<forall>(n', v') \<in> set post. n' = ''slot'' \<or> (n' \<noteq> k \<and> toCamelCase n' \<noteq> k)"
      and kids: "\<forall>c \<in> set (childNodes el). truthy_slot (slot c) \<longrightarrow> slot c \<noteq> Some k"
  proof -
    have u: "\<forall>j<length (childNodes el).
               truthy_slot (fst (?kids ! j)) \<longrightarrow> fst (?kids ! j) \<noteq> Some k"
      using kids by simp
    have w: "writes_key k (n, v)"
      using n k by (auto simp: writes_key_def)
    have l: "\<forall>nv \<in> set post. \<not> writes_key k nv"
      using later by (auto simp: writes_key_def)
    show ?thesis
      by (simp add: child_loop_untouched [OF u] attr_loop_last_writer [OF at w l])
  qed
  show ?thesis
  proof (intro conjI allI impI)
    fix x
    show "map_of (projected_props (toVdom el nodeName')) ''slot'' \<noteq> Some (JStr x)"
      unfolding pp by (rule s)
  next
    assume hyp: "attributes el = pre @ (n, v) # post \<and> n \<noteq> ''slot'' \<and>
          (k = n \<or> k = toCamelCase n) \<and>
          (\<forall>(n', v') \<in> set post. n' = ''slot'' \<or> (n' \<noteq> k \<and> toCamelCase n' \<noteq> k)) \<and>
          (\<forall>c \<in> set (childNodes el). truthy_slot (slot c) \<longrightarrow> slot c \<noteq> Some k)"
    show "map_of (projected_props (toVdom el nodeName')) k = Some (JStr v)"
      unfolding pp using hyp by (elim conjE) (rule a)
  qed
qed

theorem toVdom_attributes_copied_witness:
  "isElement x_card_node \<and>
   map_of (projected_props (toVdom x_card_node None)) ''data-foo'' = Some (JStr ''1'') \<and>
   map_of (projected_props (toVdom x_card_node None)) ''dataFoo'' = Some (JStr ''1'') \<and>
   (\<forall>x. map_of (projected_props (toVdom x_card_node None)) ''slot'' \<noteq> Some (JStr x))"
proof -
  have e: "isElement x_card_node"
    by code_simp
  have at: "attributes x_card_node =
      [] @ (''data-foo'', ''1'') # [(''slot'', ''q''), (''title'', ''t'')]"
    by (simp add: x_card_node_def)
  have cc: "toCamelCase ''data-foo'' = ''dataFoo''"
    by code_simp
  have l1: "\<forall>(n', v') \<in> set [(''slot'', ''q''), (''title'', ''t'')].
      n' = ''slot'' \<or> (n' \<noteq> ''data-foo'' \<and> toCamelCase n' \<noteq> ''data-foo'')"
    by code_simp
  have l2: "\<forall>(n', v') \<in> set [(''slot'', ''q''), (''title'', ''t'')].
      n' = ''slot'' \<or> (n' \<noteq> ''dataFoo'' \<and> toCamelCase n' \<noteq> ''dataFoo'')"
    by code_simp
  have k1: "\<forall>c \<in> set (childNodes x_card_node). truthy_slot (slot c) \<longrightarrow> slot c \<noteq> Some ''data-foo''"
    by code_simp
  have k2: "\<forall>c \<in> set (childNodes x_card_node). truthy_slot (slot c) \<longrightarrow> slot c \<noteq> Some ''dataFoo''"
    by code_simp
  note t1 = toVdom_attributes_copied [OF e, of None "[]" "''data-foo''" "''1''"
                 "[(''slot'', ''q''), (''title'', ''t'')]" "''data-foo''"]
  note t2 = toVdom_attributes_copied [OF e, of None "[]" "''data-foo''" "''1''"
                 "[(''slot'', ''q''), (''title'', ''t'')]" "''dataFoo''"]
  from t1 at l1 k1 have r1:
    "map_of (projected_props (toVdom x_card_node None)) ''data-foo'' = Some (JStr ''1'')"
    by simp
  from t2 at cc l2 k2 have r2:
    "map_of (projected_props (toVdom x_card_node None)) ''dataFoo'' = Some (JStr ''1'')"
    by simp
  from t1 have r3:
    "\<forall>x. map_of (projected_props (toVdom x_card_node None)) ''slot'' \<noteq> Some (JStr x)"
    by (rule conjunct1)
  from e r1 r2 r3 show ?thesis by (intro conjI)
qed

text \<open>
  C5 as stated fails: in \<^verbatim>\<open><x-a title="t"><b slot="title"></b></x-a>\<close> the key
  \<^verbatim>\<open>title\<close> of the returned prop map holds the slotted child, not the attribute; and
  in \<^verbatim>\<open><x-a a-1="x" a1="y">\<close> the camel-case key \<^verbatim>\<open>a1\<close> of the first attribute holds
  the value of the second.
\<close>

theorem toVdom_attribute_overwritten:
  "(''title'', ''t'') \<in> set (attributes
      (Node 1 ''X-A'' [] [(''title'', ''t'')] [Node 1 ''B'' [] [(''slot'', ''title'')] []])) \<and>
   map_of (projected_props (toVdom
      (Node 1 ''X-A'' [] [(''title'', ''t'')] [Node 1 ''B'' [] [(''slot'', ''title'')] []]) None))
      ''title'' \<noteq> Some (JStr ''t'') \<and>
   (''a-1'', ''x'') \<in> set (attributes (Node 1 ''X-A'' [] [(''a-1'', ''x''), (''a1'', ''y'')] [])) \<and>
   map_of (projected_props (toVdom
      (Node 1 ''X-A'' [] [(''a-1'', ''x''), (''a1'', ''y'')] []) None))
      (toCamelCase ''a-1'') \<noteq> Some (JStr ''x'')"
  by code_simp

section \<open>Children and named slots\<close>

text \<open>
  C6, as the code has it. For an element with children \<open>cn\<close>, the result is a node
  whose children are the array \<open>arr\<close>, wrapped in one unnamed \<open>Slot\<close> exactly when
  the \<open>nodeName\<close> argument is given (the topmost call; the children themselves are
  projected with \<^verbatim>\<open>null\<close>, hence unwrapped). A child without a slot name sits in
  \<open>arr\<close> at its own index \<open>j\<close>; a child with a non-empty slot name leaves a hole
  there, and the first child in document order carrying that slot name is in the prop
  map under it, wrapped in a \<open>Slot\<close> with that \<open>name\<close>.
\<close>

theorem toVdom_children_routed:
  assumes "isElement el"
  shows "\<exists>ps arr.
     toVdom el nodeName' =
       JVNode (VNode
         (if truthy_nodeName nodeName' then the nodeName' else Tag (toLowerCase (nodeName el)))
         ps
         (if truthy_nodeName nodeName' then JVNode (h Slot None (JArray arr)) else JArray arr)) \<and>
     length arr \<le> length (childNodes el) \<and>
     (\<forall>j<length (childNodes el).
        (truthy_slot (slot (childNodes el ! j)) \<longrightarrow>
           array_get arr j = None \<and>
           ((\<forall>i<j. slot (childNodes el ! i) \<noteq> slot (childNodes el ! j)) \<longrightarrow>
              map_of ps (the (slot (childNodes el ! j))) =
                Some (JVNode (h Slot (Some [(''name'', JStr (the (slot (childNodes el ! j))))])
                               (toVdom (childNodes el ! j) None))))) \<and>
        (\<not> truthy_slot (slot (childNodes el ! j)) \<longrightarrow>
           array_get arr j = Some (toVdom (childNodes el ! j) None)))"
proof -
  let ?cn = "childNodes el"
  let ?kids = "map (\<lambda>c. (slot c, toVdom c None)) ?cn"
  let ?r = "child_loop ?kids (length ?cn) (attr_loop (attributes el) []) []"
  have shape: "toVdom el nodeName' =
       JVNode (VNode
         (if truthy_nodeName nodeName' then the nodeName' else Tag (toLowerCase (nodeName el)))
         (fst ?r)
         (if truthy_nodeName nodeName' then JVNode (h Slot None (JArray (snd ?r)))
          else JArray (snd ?r)))"
    by (simp add: toVdom_element [OF assms] h_def)
  have len: "length (snd ?r) \<le> length ?cn"
    using child_loop_length [of ?kids "length ?cn" "attr_loop (attributes el) []" "[]"] by simp
  have arr_named: "array_get (snd ?r) j = None"
    if "j < length ?cn" and "truthy_slot (slot (?cn ! j))" for j
    using that by (simp add: child_loop_children array_get_Nil)
  have arr_plain: "array_get (snd ?r) j = Some (toVdom (?cn ! j) None)"
    if "j < length ?cn" and "\<not> truthy_slot (slot (?cn ! j))" for j
    using that by (simp add: child_loop_children)
  have named: "map_of (fst ?r) (the (slot (?cn ! j))) =
      Some (JVNode (h Slot (Some [(''name'', JStr (the (slot (?cn ! j))))]) (toVdom (?cn ! j) None)))"
    if j: "j < length ?cn" and t: "truthy_slot (slot (?cn ! j))"
      and first: "\<forall>i<j. slot (?cn ! i) \<noteq> slot (?cn ! j)" for j
  proof -
    from t obtain k where k: "slot (?cn ! j) = Some k" "k \<noteq> []"
      by (cases "slot (?cn ! j)") auto
    have f: "fst (?kids ! j) = Some k"
      using j k by simp
    have e: "\<forall>j'<j. fst (?kids ! j') \<noteq> Some k"
      using first j k by simp
    from child_loop_first_wins [OF j f k(2) e, of "attr_loop (attributes el) []" "[]"]
    show ?thesis
      using j k by simp
  qed
  show ?thesis
    apply (rule exI [of _ "fst ?r"], rule exI [of _ "snd ?r"])
    apply (intro conjI allI impI)
    subgoal by (rule shape)
    subgoal by (rule len)
    subgoal for j by (rule arr_named)
    subgoal for j by (rule named)
    subgoal for j by (rule arr_plain)
    done
qed


theorem toVdom_children_routed_witness:
  "isElement x_card_node \<and>
   (\<exists>ps arr.
      toVdom x_card_node (Some (UserComponent Greet)) =
        JVNode (VNode (UserComponent Greet) ps (JVNode (h Slot None (JArray arr)))) \<and>
      array_get arr 0 = None \<and>
      array_get arr 1 = Some (JStr ''hi'') \<and>
      map_of ps ''body'' =
        Some (JVNode (h Slot (Some [(''name'', JStr ''body'')])
                (toVdom (Node 1 ''B'' [] [(''slot'', ''body'')] []) None))))"
proof -
  have e: "isElement x_card_node"
    by code_simp
  have cn: "childNodes x_card_node =
      [Node 1 ''B'' [] [(''slot'', ''body'')] [], Node 3 ''#text'' ''hi'' [] []]"
    by (simp add: x_card_node_def)
  from toVdom_children_routed [OF e, of "Some (UserComponent Greet)"] obtain ps arr where
    sh: "toVdom x_card_node (Some (UserComponent Greet)) =
       JVNode (VNode
         (if truthy_nodeName (Some (UserComponent Greet)) then the (Some (UserComponent Greet))
          else Tag (toLowerCase (nodeName x_card_node)))
         ps
         (if truthy_nodeName (Some (UserComponent Greet)) then JVNode (h Slot None (JArray arr))
          else JArray arr))"
    and al: "\<forall>j<length (childNodes x_card_node).
        (truthy_slot (slot (childNodes x_card_node ! j)) \<longrightarrow>
           array_get arr j = None \<and>
           ((\<forall>i<j. slot (childNodes x_card_node ! i) \<noteq> slot (childNodes x_card_node ! j)) \<longrightarrow>
              map_of ps (the (slot (childNodes x_card_node ! j))) =
                Some (JVNode (h Slot (Some [(''name'', JStr (the (slot (childNodes x_card_node ! j))))])
                               (toVdom (childNodes x_card_node ! j) None))))) \<and>
        (\<not> truthy_slot (slot (childNodes x_card_node ! j)) \<longrightarrow>
           array_get arr j = Some (toVdom (childNodes x_card_node ! j) None))"
    by blast
  from spec [OF al, of 0] have a0: "array_get arr 0 = None \<and> map_of ps ''body'' =
        Some (JVNode (h Slot (Some [(''name'', JStr ''body'')])
                (toVdom (Node 1 ''B'' [] [(''slot'', ''body'')] []) None)))"
    by (simp add: cn slot_def isElement_def)
  from spec [OF al, of 1] have a1: "array_get arr 1 = Some (JStr ''hi'')"
    by (simp add: cn slot_def isElement_def)
  from sh have sh': "toVdom x_card_node (Some (UserComponent Greet)) =
        JVNode (VNode (UserComponent Greet) ps (JVNode (h Slot None (JArray arr))))"
    by simp
  from e sh' a0 a1 show ?thesis by blast
qed

text \<open>
  C6 as stated fails for a slot name carried by two children: in
  \<^verbatim>\<open><x-a><b slot="s"></b><i slot="s"></i></x-a>\<close> the second child is neither in the
  prop map nor among the children.
\<close>

theorem toVdom_duplicate_slot_dropped:
  "slot (Node 1 ''I'' [] [(''slot'', ''s'')] []) = Some ''s'' \<and>
   toVdom (Node 1 ''X-A'' [] []
             [Node 1 ''B'' [] [(''slot'', ''s'')] [], Node 1 ''I'' [] [(''slot'', ''s'')] []]) None
     = JVNode (VNode (Tag ''x-a'')
         [(''s'', JVNode (VNode Slot [(''name'', JStr ''s'')]
                    (JVNode (VNode (Tag ''b'') [] (JArray [])))))]
         (JArray [])) \<and>
   map_of (projected_props (toVdom (Node 1 ''X-A'' [] []
             [Node 1 ''B'' [] [(''slot'', ''s'')] [], Node 1 ''I'' [] [(''slot'', ''s'')] []]) None))
      ''s''
     \<noteq> Some (JVNode (h Slot (Some [(''name'', JStr ''s'')])
                (toVdom (Node 1 ''I'' [] [(''slot'', ''s'')] []) None)))"
  by code_simp

end
